theory Spec2Isabelle
  imports Complex_Main
begin

section \<open>Shared data: Python errors and numpy floating results\<close>

text \<open>
  The exceptions that the modelled parts of \<^verbatim>\<open>diagnostics.py\<close> can raise. A function that
  can raise returns \<open>py_error + 'a\<close>, with \<open>Inl\<close> for the exception.
\<close>

datatype py_error = ValueError | KeyError | IndexError | ZeroDivisionError | AttributeError

text \<open>
  Samples are floating-point numbers in the source. The model idealises them as reals:
  rounding is not modelled, but the non-finite results that numpy produces instead of
  raising (a division of an array by zero gives \<open>inf\<close> or \<open>nan\<close> with a warning) are
  kept as values of their own.
\<close>

datatype npfloat = Finite real | PosInf | NegInf | NaN

definition np_true_divide :: "real \<Rightarrow> real \<Rightarrow> npfloat" where
  "np_true_divide a b =
     (if b \<noteq> 0 then Finite (a / b)
      else if 0 < a then PosInf
      else if a < 0 then NegInf
      else NaN)"

fun np_sqrt :: "npfloat \<Rightarrow> npfloat" where
  "np_sqrt (Finite x) = (if x < 0 then NaN else Finite (sqrt x))"
| "np_sqrt PosInf = PosInf"
| "np_sqrt NegInf = NaN"
| "np_sqrt NaN = NaN"

fun np_greater :: "npfloat \<Rightarrow> real \<Rightarrow> bool" where
  "np_greater (Finite x) t = (t < x)"
| "np_greater PosInf t = True"
| "np_greater NegInf t = False"
| "np_greater NaN t = False"

section \<open>grubin: the Gelman-Rubin split R hat statistic\<close>

text \<open>
  A two-dimensional array (\<open>core.chain\<close>): its rows, and its number of columns, which
  numpy knows even when there is no row. Every row of an array has \<open>ncols\<close>
  entries; the theorems below do not depend on it.
\<close>

record chain2d =
  ncols :: nat
  rows :: "real list list"

text \<open>The \<open>core\<close> argument of \<open>grubin\<close>: one core, or a Python list of cores.\<close>

datatype core_arg = Core chain2d | CoreList "chain2d list"

text \<open>
  \<^verbatim>\<open>
  if isinstance(core, list) and len(core) == 2:
      data = np.concatenate([core[0].chain, core[1].chain])
  else:
      data = core.chain
  \<close>
  \<open>np.concatenate\<close> raises ValueError when the column counts differ; a list of another
  length has no attribute \<open>chain\<close>.
\<close>

fun grubin_data :: "core_arg \<Rightarrow> py_error + chain2d" where
  "grubin_data (Core d) = Inr d"
| "grubin_data (CoreList [a, b]) =
     (if ncols a = ncols b then Inr \<lparr>ncols = ncols a, rows = rows a @ rows b\<rparr>
      else Inl ValueError)"
| "grubin_data (CoreList cs) = Inl AttributeError"

text \<open>
  \<open>data[burn:, :-2]\<close>: the rows from \<open>burn\<close> on, without the last two columns.
\<close>

definition retained :: "chain2d \<Rightarrow> nat \<Rightarrow> real list list" where
  "retained d burn = map (\<lambda>r. take (ncols d - 2) r) (drop burn (rows d))"

text \<open>
  \<open>np.split(ary, M)\<close> along the rows: \<open>M\<close> contiguous blocks of equal length. It
  computes \<open>len(ary) % M\<close> first, which raises ZeroDivisionError for \<open>M = 0\<close>, and
  raises ValueError when the remainder is not zero.
\<close>

definition np_split :: "'a list \<Rightarrow> nat \<Rightarrow> py_error + 'a list list" where
  "np_split ary M =
     (if M = 0 then Inl ZeroDivisionError
      else if length ary mod M \<noteq> 0 then Inl ValueError
      else (let n = length ary div M
            in Inr (map (\<lambda>m. take n (drop (m * n) ary)) [0..<M])))"

text \<open>
  The split of \<open>grubin\<close> and the burn-in it settles on.
  \<^verbatim>\<open>
  burn = 0
  try:
      data_split = np.split(data[burn:,:-2], M)
  except:
      P = int(np.floor((len(data[:, 0]) - burn) / M))
      X = len(data[:, 0]) - burn - M * P
      burn += X
      burn = int(burn)
      data_split = np.split(data[burn:,:-2], M)
  \<close>
  In the handler \<open>data[:, 0]\<close> raises IndexError for an array without columns, and the
  division by \<open>M\<close> raises ZeroDivisionError for \<open>M = 0\<close>. The quotient is a
  floating-point division in the source; for row counts below \<open>2 ^ 53\<close> its floor is the
  integer quotient, which is what the model takes.
\<close>

definition grubin_split :: "chain2d \<Rightarrow> nat \<Rightarrow> py_error + (nat \<times> real list list list)" where
  "grubin_split d M =
     (let burn = 0 in
      case np_split (retained d burn) M of
        Inr data_split \<Rightarrow> Inr (burn, data_split)
      | Inl e \<Rightarrow>
          if ncols d = 0 then Inl IndexError
          else if M = 0 then Inl ZeroDivisionError
          else (let P = (length (rows d) - burn) div M;
                    X = length (rows d) - burn - M * P;
                    burn = burn + X
                in case np_split (retained d burn) M of
                     Inr data_split \<Rightarrow> Inr (burn, data_split)
                   | Inl e' \<Rightarrow> Inl e'))"

text \<open>
  The statistics, one definition per line of the source. \<open>data\<close> is the list of the
  \<open>M\<close> blocks, each a list of rows with \<open>P\<close> retained columns.
  \<^verbatim>\<open>
  theta_bar_dotm = np.mean(data, axis=1)
  theta_bar_dotdot = np.mean(theta_bar_dotm, axis=0)
  B = N / (M - 1) * np.sum((theta_bar_dotm - theta_bar_dotdot)**2, axis=0)
  sm_sq = 1 / (N - 1) * np.sum((data - theta_bar_dotm[:, None, :])**2, axis=1)
  W = 1 / M * np.sum(sm_sq, axis=0)
  var_post = (N - 1) / N * W + 1 / N * B
  Rhat = np.sqrt(var_post / W)
  idx = np.where(Rhat > threshold)[0]
  \<close>
\<close>

definition theta_bar_dotm :: "real list list list \<Rightarrow> nat \<Rightarrow> real list list" where
  "theta_bar_dotm data P =
     map (\<lambda>blk. map (\<lambda>p. sum_list (map (\<lambda>row. row ! p) blk) / real (length blk)) [0..<P]) data"

definition theta_bar_dotdot :: "real list list \<Rightarrow> nat \<Rightarrow> real list" where
  "theta_bar_dotdot tbm P =
     map (\<lambda>p. sum_list (map (\<lambda>m. m ! p) tbm) / real (length tbm)) [0..<P]"

definition between_B :: "nat \<Rightarrow> nat \<Rightarrow> real list list \<Rightarrow> real list \<Rightarrow> nat \<Rightarrow> real list" where
  "between_B N M tbm tbdd P =
     map (\<lambda>p. real N / (real M - 1) * sum_list (map (\<lambda>m. (m ! p - tbdd ! p)\<^sup>2) tbm)) [0..<P]"

definition sm_sq :: "nat \<Rightarrow> real list list list \<Rightarrow> real list list \<Rightarrow> nat \<Rightarrow> real list list" where
  "sm_sq N data tbm P =
     map (\<lambda>(blk, mean).
            map (\<lambda>p. 1 / (real N - 1) * sum_list (map (\<lambda>row. (row ! p - mean ! p)\<^sup>2) blk)) [0..<P])
         (zip data tbm)"

definition within_W :: "nat \<Rightarrow> real list list \<Rightarrow> nat \<Rightarrow> real list" where
  "within_W M sm P = map (\<lambda>p. 1 / real M * sum_list (map (\<lambda>s. s ! p) sm)) [0..<P]"

definition var_post :: "nat \<Rightarrow> real list \<Rightarrow> real list \<Rightarrow> nat \<Rightarrow> real list" where
  "var_post N W B P = map (\<lambda>p. (real N - 1) / real N * W ! p + 1 / real N * B ! p) [0..<P]"

definition Rhat_of :: "real list \<Rightarrow> real list \<Rightarrow> nat \<Rightarrow> npfloat list" where
  "Rhat_of vp W P = map (\<lambda>p. np_sqrt (np_true_divide (vp ! p) (W ! p))) [0..<P]"

definition exceeding :: "npfloat list \<Rightarrow> real \<Rightarrow> nat list" where
  "exceeding Rhat threshold = filter (\<lambda>p. np_greater (Rhat ! p) threshold) [0..<length Rhat]"

text \<open>
  The local variables of \<open>grubin\<close> when it returns.
\<close>

record grubin_locals =
  gr_burn :: nat
  gr_N :: nat
  gr_B :: "real list"
  gr_W :: "real list"
  gr_var_post :: "real list"
  gr_Rhat :: "npfloat list"
  gr_idx :: "nat list"

text \<open>
  The body of \<open>grubin\<close> for a split count \<open>M \<ge> 0\<close>. \<open>N\<close> and \<open>M\<close> are Python
  integers, so the divisions \<open>N / (M - 1)\<close>, \<open>1 / (N - 1)\<close>, \<open>1 / M\<close>,
  \<open>(N - 1) / N\<close> and \<open>1 / N\<close> raise ZeroDivisionError on a zero divisor, in the order
  of the source; the division by the array \<open>W\<close> is numpy's and raises nothing.
  \<open>N = len(data[burn:, 0])\<close> is read from \<open>data\<close> before \<open>data\<close> is rebound to the
  array of blocks, and raises IndexError for an array without columns.
\<close>

definition grubin_body :: "chain2d \<Rightarrow> nat \<Rightarrow> real \<Rightarrow> py_error + grubin_locals" where
  "grubin_body d M threshold =
     (case grubin_split d M of
        Inl e \<Rightarrow> Inl e
      | Inr (burn, data_split) \<Rightarrow>
          if ncols d = 0 then Inl IndexError
          else
            (let N = length (drop burn (rows d));
                 data = data_split;
                 P = ncols d - 2;
                 tbm = theta_bar_dotm data P;
                 tbdd = theta_bar_dotdot tbm P
             in if M = 1 then Inl ZeroDivisionError
                else
                  (let B = between_B N M tbm tbdd P
                   in if N = 1 then Inl ZeroDivisionError
                      else
                        (let sm = sm_sq N data tbm P;
                             W = within_W M sm P
                         in if N = 0 then Inl ZeroDivisionError
                            else
                              (let vp = var_post N W B P;
                                   Rhat = Rhat_of vp W P;
                                   idx = exceeding Rhat threshold
                               in Inr \<lparr>gr_burn = burn, gr_N = N, gr_B = B, gr_W = W,
                                       gr_var_post = vp, gr_Rhat = Rhat, gr_idx = idx\<rparr>)))))"

text \<open>
  \<open>grubin(core, M, threshold)\<close> returns \<open>(Rhat, idx)\<close>. A negative \<open>M\<close> makes both
  calls of \<open>np.split\<close> raise ValueError (the first is caught); with no column the
  handler raises IndexError before the second.
\<close>

definition grubin :: "core_arg \<Rightarrow> int \<Rightarrow> real \<Rightarrow> py_error + (npfloat list \<times> nat list)" where
  "grubin core M threshold =
     (case grubin_data core of
        Inl e \<Rightarrow> Inl e
      | Inr d \<Rightarrow>
          if M < 0 then (if ncols d = 0 then Inl IndexError else Inl ValueError)
          else (case grubin_body d (nat M) threshold of
                  Inl e \<Rightarrow> Inl e
                | Inr l \<Rightarrow> Inr (gr_Rhat l, gr_idx l)))"

text \<open>
  The statistic as the specification words it, for comparison with the source: the
  same formulas, with \<open>N\<close> the number of rows per block.
\<close>

definition spec_Rhat :: "real list list list \<Rightarrow> nat \<Rightarrow> nat \<Rightarrow> npfloat list" where
  "spec_Rhat data M P =
     (let N = (case data of [] \<Rightarrow> 0 | blk # _ \<Rightarrow> length blk);
          tbm = theta_bar_dotm data P;
          tbdd = theta_bar_dotdot tbm P;
          B = between_B N M tbm tbdd P;
          W = within_W M (sm_sq N data tbm P) P;
          vp = var_post N W B P
      in Rhat_of vp W P)"

text \<open>The burn-in of \<open>grubin_split\<close> as a function of the row count alone.\<close>

definition grubin_burn :: "nat \<Rightarrow> nat \<Rightarrow> nat" where
  "grubin_burn R M = (if R mod M = 0 then 0 else R - M * (R div M))"

section \<open>compute_neff: effective sample sizes\<close>

text \<open>
  A core as \<open>compute_neff\<close> and \<open>plot_chains\<close> read it: the list \<open>core.params\<close> and
  the sample sequence \<open>core(p)\<close> of a parameter.
\<close>

record core_obj =
  params :: "string list"
  samples :: "string \<Rightarrow> real list"

definition bookkeeping :: "string list" where
  "bookkeeping = [''lnpost'', ''lnlike'', ''chain_accept'', ''pt_chain_accept'']"

text \<open>
  \<^verbatim>\<open>
  neffs = {}
  for p in core.params:
      if p in ['lnpost', 'lnlike', 'chain_accept', 'pt_chain_accept']:
          continue
      chain = core(p)
      neffs[p] = len(chain) / integrated_time(chain, quiet=True)[0]
  return neffs
  \<close>
  \<open>integrated_time\<close> is emcee's estimator, outside this repository: the model takes
  \<open>tau\<close>, the first entry of its result, as a parameter. The quotient is a division by
  a numpy float.
\<close>

fun neff_loop ::
  "(real list \<Rightarrow> real) \<Rightarrow> core_obj \<Rightarrow> string list \<Rightarrow> (string \<rightharpoonup> npfloat) \<Rightarrow> (string \<rightharpoonup> npfloat)"
where
  "neff_loop tau core [] neffs = neffs"
| "neff_loop tau core (p # ps) neffs =
     (if p \<in> set bookkeeping then neff_loop tau core ps neffs
      else (let chain = samples core p
            in neff_loop tau core ps
                 (neffs(p \<mapsto> np_true_divide (real (length chain)) (tau chain)))))"

definition compute_neff :: "(real list \<Rightarrow> real) \<Rightarrow> core_obj \<Rightarrow> (string \<rightharpoonup> npfloat)" where
  "compute_neff tau core = neff_loop tau core (params core) Map.empty"

section \<open>plot_chains: the parameters to plot\<close>

text \<open>The \<open>core\<close> argument of \<open>plot_chains\<close>: one core, or a Python list of cores.\<close>

datatype cores = OneCore core_obj | ManyCores "core_obj list"

text \<open>
  \<open>for p in exclude: params.remove(p)\<close>: \<open>list.remove\<close> deletes the first occurrence
  and raises ValueError when there is none.
\<close>

fun remove_each :: "string list \<Rightarrow> string list \<Rightarrow> py_error + string list" where
  "remove_each ps [] = Inr ps"
| "remove_each ps (p # exclude) =
     (if p \<in> set ps then remove_each (remove1 p ps) exclude else Inl ValueError)"

text \<open>
  The choice of \<open>params\<close> at the head of \<open>plot_chains\<close>, branch by branch.
  \<^verbatim>\<open>
  if pars is not None:
      params = pars
  elif exclude is not None and pars is not None:
      raise ValueError('Please remove excluded parameters from `pars`.')
  elif exclude is not None:
      if isinstance(core, list):
          params = set()
          for c in core:
              params.intersection_update(c.params)
      else:
          params = core.params
      params = list(params)
      for p in exclude:
          params.remove(p)
  elif pars is None and exclude is None:
      if isinstance(core, list):
          params = core[0].params
          for c in core[1:]:
              params = [p for p in params if p in c.params]
      else:
          params = core.params
  \<close>
  The intersection of the empty set with anything is empty, so a list of cores with
  \<open>exclude\<close> starts from no parameter.
\<close>

definition plot_chains_params ::
  "cores \<Rightarrow> string list option \<Rightarrow> string list option \<Rightarrow> py_error + string list"
where
  "plot_chains_params core pars exclude =
     (if pars \<noteq> None then Inr (the pars)
      else if exclude \<noteq> None \<and> pars \<noteq> None then Inl ValueError
      else if exclude \<noteq> None then
        (let ps = (case core of ManyCores cs \<Rightarrow> [] | OneCore c \<Rightarrow> params c)
         in remove_each ps (the exclude))
      else
        (case core of
           ManyCores [] \<Rightarrow> Inl IndexError
         | ManyCores (c0 # cs) \<Rightarrow>
             Inr (fold (\<lambda>c ps. filter (\<lambda>p. p \<in> set (params c)) ps) cs (params c0))
         | OneCore c \<Rightarrow> Inr (params c)))"

section \<open>pp_plot: calibration of posterior p-values\<close>

text \<open>
  What \<open>pp_plot\<close> reads from outside: the entries of \<open>chainfolder\<close>, which of them
  are directories, the integer after the last underscore of a path (\<open>None\<close> where
  \<open>int\<close> raises ValueError), the parsed \<open>ans.json\<close> of a folder (\<open>None\<close> where
  opening or parsing it raises), the lines of its \<open>pars.txt\<close> (\<open>None\<close> where reading
  it raises), and the chain of \<open>SlicesCore(slicedirs, pars2pull=[param], params=pars)\<close>,
  a class of this repository that is not among the sources: the chain is taken as a
  parameter, given as the list of its columns, one per realization.
\<close>

record pp_env =
  scandir :: "string list"
  is_dir :: "string \<Rightarrow> bool"
  suffix_int :: "string \<Rightarrow> int option"
  ans_json :: "string \<Rightarrow> (string \<rightharpoonup> real) option"
  pars_txt :: "string \<Rightarrow> string list option"
  slices_chain :: "string list \<Rightarrow> string \<Rightarrow> string list \<Rightarrow> real list list"

text \<open>The lines that \<open>pp_plot\<close> prints.\<close>

datatype message =
    NeedsAnsJson
  | FolderSkipped string
  | ParamsFileNotFound
  | CountsDiffer
  | Counts nat nat

text \<open>
  The variables of the loop over the folders; \<open>raised\<close> holds the exception that
  ended it, if any.
\<close>

record load_state =
  subfolders :: "string list"
  num_list :: "int list"
  answer_list :: "real list"
  printed :: "message list"
  raised :: "py_error option"

text \<open>
  \<^verbatim>\<open>
  for folder in subfolders:
      num = folder.split('_')[-1]
      num_list.append(num)
      answer_file = folder + '/ans.json'
      if not os.path.isdir(folder):
          continue
      try:
          with open(answer_file, 'r') as f:
              ans = json.load(f)
      except:
          print('Folders must contain ans.json with injected values.')
          print('Folder {} skipped'.format(folder))
          subfolders.remove(folder)
          continue
      try:
          answer_list.append(ans[param])
      except KeyError:
          answer_list.append(ans['gw_log10_A'])
  \<close>
  A Python \<open>for\<close> over a list reads the element at its running index \<open>i\<close> until the
  index reaches the current length, so the model carries \<open>i\<close> and the list, which the
  body shortens with \<open>remove\<close>.
\<close>

function load_loop :: "pp_env \<Rightarrow> string \<Rightarrow> nat \<Rightarrow> load_state \<Rightarrow> load_state" where
  "load_loop env param i st =
     (if i < length (subfolders st) then
        (if \<not> is_dir env (subfolders st ! i) then
           load_loop env param (Suc i)
             (st\<lparr>num_list := num_list st @ [the (suffix_int env (subfolders st ! i))]\<rparr>)
         else
           (case ans_json env (subfolders st ! i) of
              None \<Rightarrow>
                load_loop env param (Suc i)
                  (st\<lparr>num_list := num_list st @ [the (suffix_int env (subfolders st ! i))],
                      printed := printed st @ [NeedsAnsJson, FolderSkipped (subfolders st ! i)],
                      subfolders := remove1 (subfolders st ! i) (subfolders st)\<rparr>)
            | Some ans \<Rightarrow>
                (case ans param of
                   Some v \<Rightarrow>
                     load_loop env param (Suc i)
                       (st\<lparr>num_list := num_list st @ [the (suffix_int env (subfolders st ! i))],
                           answer_list := answer_list st @ [v]\<rparr>)
                 | None \<Rightarrow>
                     (case ans ''gw_log10_A'' of
                        Some v \<Rightarrow>
                          load_loop env param (Suc i)
                            (st\<lparr>num_list := num_list st @ [the (suffix_int env (subfolders st ! i))],
                                answer_list := answer_list st @ [v]\<rparr>)
                      | None \<Rightarrow>
                          st\<lparr>num_list := num_list st @ [the (suffix_int env (subfolders st ! i))],
                             raised := Some KeyError\<rparr>))))
      else st)"
  by pat_completeness auto
termination
  by (relation "measure (\<lambda>(env, param, i, st). length (subfolders st) - i)")
    (auto simp: length_remove1)

declare load_loop.simps [simp del]

text \<open>
  \<open>np.linspace(0, 1, num=n)\<close>: \<open>n\<close> evenly spaced points from \<open>0\<close> to \<open>1\<close>; the
  single point \<open>0\<close> for \<open>n = 1\<close>.
\<close>

definition np_linspace01 :: "nat \<Rightarrow> real list" where
  "np_linspace01 n = (if n = 1 then [0] else map (\<lambda>i. real i / (real n - 1)) [0..<n])"

text \<open>
  \<open>len(np.where(col[burn::1] < truth)[0]) / len(col[burn::1])\<close>, a division of Python
  integers.
\<close>

definition pvalue :: "real list \<Rightarrow> nat \<Rightarrow> real \<Rightarrow> py_error + real" where
  "pvalue col burn truth =
     (if length (drop burn col) = 0 then Inl ZeroDivisionError
      else Inr (real (length (filter (\<lambda>x. x < truth) (drop burn col)))
                / real (length (drop burn col))))"

fun pvalues_loop :: "(real list \<times> real) list \<Rightarrow> nat \<Rightarrow> py_error + real list" where
  "pvalues_loop [] burn = Inr []"
| "pvalues_loop ((col, truth) # rest) burn =
     (case pvalue col burn truth of
        Inl e \<Rightarrow> Inl e
      | Inr v \<Rightarrow> (case pvalues_loop rest burn of Inl e \<Rightarrow> Inl e | Inr vs \<Rightarrow> Inr (v # vs)))"

record pp_result =
  res_q :: "real list"
  res_pvalues :: "real list"
  res_cdf :: "real list"
  res_sigma :: "real list"

text \<open>
  The statistics of \<open>pp_plot\<close>, from the burn-in on; \<open>truths\<close> is the column
  \<open>a[:, 1]\<close>, as long as the chain has columns.
  \<^verbatim>\<open>
  burn = int(0.25 * len(slices.chain[:, 0]))
  for i in range(slices.chain.shape[1]):
      tau = 1  # no thinning
      pvalues[i] = len(np.where(slices.chain[burn::tau, i] < a[i, 1])[0]) / len(slices.chain[burn::tau, i])
  q = np.linspace(0, 1, num=len(pvalues))
  p = np.linspace(0, 1, num=1_000)
  cdf = np.zeros_like(q)
  for i in range(len(q)):
      cdf[i] = len(np.where(pvalues < q[i])[0]) / len(pvalues)
  NUM_REALS = len(cdf)
  sigma = np.sqrt(p * (1 - p) / NUM_REALS)
  return q, pvalues, cdf, sigma
  \<close>
  \<open>slices.chain[:, 0]\<close> raises IndexError when the chain has no column.
\<close>

definition pp_burn :: "nat \<Rightarrow> nat" where
  "pp_burn L = nat \<lfloor>0.25 * real L\<rfloor>"

definition pp_stats :: "real list list \<Rightarrow> real list \<Rightarrow> py_error + pp_result" where
  "pp_stats chain truths =
     (case chain of
        [] \<Rightarrow> Inl IndexError
      | col0 # cols \<Rightarrow>
          (let burn = pp_burn (length col0)
           in case pvalues_loop (zip chain truths) burn of
                Inl e \<Rightarrow> Inl e
              | Inr pvalues \<Rightarrow>
                  (let q = np_linspace01 (length pvalues);
                       p = np_linspace01 1000;
                       cdf = map (\<lambda>qi. real (length (filter (\<lambda>pv. pv < qi) pvalues))
                                         / real (length pvalues)) q;
                       NUM_REALS = length cdf;
                       sigma = map (\<lambda>pj. sqrt (pj * (1 - pj) / real NUM_REALS)) p
                   in Inr \<lparr>res_q = q, res_pvalues = pvalues, res_cdf = cdf, res_sigma = sigma\<rparr>)))"

text \<open>
  \<open>pp_plot(chainfolder, param)\<close>: the lines it prints, and the exception it raises or
  the value it returns (\<open>None\<close> or the tuple). The plotting calls are left out.
  \<^verbatim>\<open>
  subfolders = [f.path for f in os.scandir(chainfolder) if f.is_dir()]
  subfolders.sort(key=lambda x: int(x.split('_')[-1]))
  ... the loop ...
  answer_array = np.array(answer_list)
  num_array = np.array(num_list).astype(int)
  a = np.column_stack([num_array, answer_array])
  a = a[a[:, 0].argsort()]
  try:
      with open(subfolders[0] + '/pars.txt', 'r') as f:
          pars = f.read().split('\n')[:-1]
  except TypeError: ...
  except:
      print('Params file not found.')
      return None
  slices = SlicesCore(slicedirs=subfolders, pars2pull=[param], params=pars)
  pvalues = np.zeros(slices.chain.shape[1])
  if slices.chain.shape[1] != answer_array.shape[0]:
      print('Number of chains and number of truths are different.')
      print(slices.chain.shape[1], '!=', answer_array.shape[0])
      return None
  \<close>
  \<open>np.column_stack\<close> raises ValueError when the two arrays differ in length. The rows
  of \<open>a\<close> are ordered by their number; \<open>num_list\<close> is filled in the order of the
  sorted folders, so the order is already there, and the model's stable sort keeps it.
\<close>

definition pp_plot :: "pp_env \<Rightarrow> string \<Rightarrow> message list \<times> (py_error + pp_result option)" where
  "pp_plot env param =
     (let dirs = filter (is_dir env) (scandir env)
      in if None \<in> set (map (suffix_int env) dirs) then ([], Inl ValueError)
         else
           (let st = load_loop env param 0
                       \<lparr>subfolders = sort_key (\<lambda>x. the (suffix_int env x)) dirs,
                        num_list = [], answer_list = [], printed = [], raised = None\<rparr>
            in case raised st of
                 Some e \<Rightarrow> (printed st, Inl e)
               | None \<Rightarrow>
                   if length (num_list st) \<noteq> length (answer_list st)
                   then (printed st, Inl ValueError)
                   else
                     (let a = sort_key fst (zip (num_list st) (answer_list st))
                      in case (case subfolders st of [] \<Rightarrow> None | f # fs \<Rightarrow> pars_txt env f) of
                           None \<Rightarrow> (printed st @ [ParamsFileNotFound], Inr None)
                         | Some pars \<Rightarrow>
                             (let chain = slices_chain env (subfolders st) param pars
                              in if length chain \<noteq> length (answer_list st)
                                 then (printed st @
                                         [CountsDiffer, Counts (length chain) (length (answer_list st))],
                                       Inr None)
                                 else (case pp_stats chain (map snd a) of
                                         Inl e \<Rightarrow> (printed st, Inl e)
                                       | Inr res \<Rightarrow> (printed st, Inr (Some res)))))))"

text \<open>
  The values that the statistics of \<open>pp_plot\<close> are computed from, as functions of
  what it reads: the loop's variables when the loop ends, the column \<open>a[:, 1]\<close> of the
  injected values in the order of their folders' numbers, and \<open>slices.chain\<close>.
  \<open>pp_plot\<close> reads the last only after it has found \<open>pars.txt\<close> in the first
  remaining folder.
\<close>

definition pp_loaded :: "pp_env \<Rightarrow> string \<Rightarrow> load_state" where
  "pp_loaded env param =
     load_loop env param 0
       \<lparr>subfolders = sort_key (\<lambda>x. the (suffix_int env x)) (filter (is_dir env) (scandir env)),
        num_list = [], answer_list = [], printed = [], raised = None\<rparr>"

definition pp_truths :: "pp_env \<Rightarrow> string \<Rightarrow> real list" where
  "pp_truths env param =
     map snd (sort_key fst (zip (num_list (pp_loaded env param))
                                (answer_list (pp_loaded env param))))"

definition pp_chain :: "pp_env \<Rightarrow> string \<Rightarrow> real list list" where
  "pp_chain env param =
     slices_chain env (subfolders (pp_loaded env param)) param
       (the (pars_txt env (hd (subfolders (pp_loaded env param)))))"

text \<open>
  Four ensembles used below. In each, every folder holds a chain of four samples and a
  \<open>pars.txt\<close> naming the one parameter \<open>x\<close>.
  \<open>ensemble_complete\<close>: two complete folders with injected values \<open>3\<close> and \<open>8\<close>.
  \<open>ensemble_last_missing\<close>: three folders, the last without \<open>ans.json\<close>.
  \<open>ensemble_first_missing\<close>: five folders, the first without \<open>ans.json\<close>.
  \<open>ensemble_extra_chain\<close>: four complete folders, and a \<open>SlicesCore\<close> that returns
  five columns for them.
\<close>

definition ensemble_last_missing :: pp_env where
  "ensemble_last_missing =
     \<lparr>scandir = [''r_0'', ''r_1'', ''r_2''],
      is_dir = (\<lambda>x. True),
      suffix_int = map_of [(''r_0'', 0), (''r_1'', 1), (''r_2'', 2)],
      ans_json = map_of [(''r_0'', [''x'' \<mapsto> 1]), (''r_1'', [''x'' \<mapsto> 2])],
      pars_txt = (\<lambda>x. Some [''x'']),
      slices_chain = (\<lambda>dirs param pars. map (\<lambda>d. [1, 2, 3, 4]) dirs)\<rparr>"

definition ensemble_first_missing :: pp_env where
  "ensemble_first_missing =
     \<lparr>scandir = [''r_0'', ''r_1'', ''r_2'', ''r_3'', ''r_4''],
      is_dir = (\<lambda>x. True),
      suffix_int = map_of [(''r_0'', 0), (''r_1'', 1), (''r_2'', 2), (''r_3'', 3), (''r_4'', 4)],
      ans_json = map_of [(''r_1'', [''x'' \<mapsto> 1]), (''r_2'', [''x'' \<mapsto> 2]),
                         (''r_3'', [''x'' \<mapsto> 3]), (''r_4'', [''x'' \<mapsto> 4])],
      pars_txt = (\<lambda>x. Some [''x'']),
      slices_chain = (\<lambda>dirs param pars. map (\<lambda>d. [1, 2, 3, 4]) dirs)\<rparr>"

definition ensemble_extra_chain :: pp_env where
  "ensemble_extra_chain =
     \<lparr>scandir = [''r_0'', ''r_1'', ''r_2'', ''r_3''],
      is_dir = (\<lambda>x. True),
      suffix_int = map_of [(''r_0'', 0), (''r_1'', 1), (''r_2'', 2), (''r_3'', 3)],
      ans_json = map_of [(''r_0'', [''x'' \<mapsto> 0]), (''r_1'', [''x'' \<mapsto> 1]),
                         (''r_2'', [''x'' \<mapsto> 2]), (''r_3'', [''x'' \<mapsto> 3])],
      pars_txt = (\<lambda>x. Some [''x'']),
      slices_chain = (\<lambda>dirs param pars. replicate 5 [1, 2, 3, 4])\<rparr>"

definition ensemble_complete :: pp_env where
  "ensemble_complete =
     \<lparr>scandir = [''r_0'', ''r_1''],
      is_dir = (\<lambda>x. True),
      suffix_int = map_of [(''r_0'', 0), (''r_1'', 1)],
      ans_json = map_of [(''r_0'', [''x'' \<mapsto> 3]), (''r_1'', [''x'' \<mapsto> 8])],
      pars_txt = (\<lambda>x. Some [''x'']),
      slices_chain = (\<lambda>dirs param pars. [[1, 2, 3, 4], [5, 6, 7, 8]])\<rparr>"

section \<open>Properties of the burn-in\<close>

lemma grubin_burn_mod: "grubin_burn R M = R mod M"
  by (simp add: grubin_burn_def minus_mult_div_eq_mod)

lemma length_retained: "length (retained d burn) = length (rows d) - burn"
  by (simp add: retained_def)

lemma np_split_ok:
  "0 < M \<Longrightarrow> length ary mod M = 0 \<Longrightarrow>
   np_split ary M = Inr (map (\<lambda>m. take (length ary div M) (drop (m * (length ary div M)) ary)) [0..<M])"
  by (simp add: np_split_def Let_def)

lemma np_split_fails: "0 < M \<Longrightarrow> length ary mod M \<noteq> 0 \<Longrightarrow> np_split ary M = Inl ValueError"
  by (simp add: np_split_def)

lemma mod_after_burn: "(R - R mod M) mod (M::nat) = 0"
  by (simp add: minus_mod_eq_mult_div)

lemma grubin_split_burn:
  assumes "grubin_split d M = Inr (burn, data_split)"
  shows "burn = grubin_burn (length (rows d)) M"
proof (cases "M = 0")
  case True
  with assms show ?thesis
    by (simp add: grubin_split_def np_split_def Let_def split: if_splits)
next
  case False
  then have M: "0 < M" by simp
  show ?thesis
  proof (cases "length (rows d) mod M = 0")
    case True
    with assms M show ?thesis
      by (simp add: grubin_split_def np_split_ok length_retained grubin_burn_mod Let_def)
  next
    case False
    with assms M show ?thesis
      by (auto simp: grubin_split_def np_split_fails length_retained grubin_burn_mod
          minus_mult_div_eq_mod Let_def split: if_splits sum.splits)
  qed
qed

lemma grubin_split_total:
  assumes "0 < M" and "0 < ncols d \<or> length (rows d) mod M = 0"
  shows "\<exists>data_split. grubin_split d M = Inr (grubin_burn (length (rows d)) M, data_split)"
proof (cases "length (rows d) mod M = 0")
  case True
  with assms show ?thesis
    by (simp add: grubin_split_def np_split_ok length_retained grubin_burn_mod Let_def)
next
  case False
  with assms have c: "0 < ncols d" by simp
  have "length (retained d (length (rows d) mod M)) mod M = 0"
    by (simp add: length_retained mod_after_burn)
  with assms(1) False c show ?thesis
    by (simp add: grubin_split_def np_split_fails np_split_ok length_retained grubin_burn_mod
        minus_mult_div_eq_mod Let_def)
qed




section \<open>Identical blocks\<close>

lemma take_drop_concat_replicate:
  "m < M \<Longrightarrow> take (length b) (drop (m * length b) (concat (replicate M b))) = b"
proof (induction m arbitrary: M)
  case 0
  then obtain M' where "M = Suc M'" by (cases M) auto
  then show ?case by simp
next
  case (Suc m)
  then obtain M' where M: "M = Suc M'" and "m < M'" by (cases M) auto
  with Suc.IH [of M'] show ?case by simp
qed

lemma length_concat_replicate: "length (concat (replicate M b)) = M * length b"
  by (induction M) simp_all

lemma np_split_replicate:
  assumes "0 < M"
  shows "np_split (concat (replicate M b)) M = Inr (replicate M b)"
proof -
  have d: "length (concat (replicate M b)) div M = length b"
    using assms by (simp add: length_concat_replicate)
  have "map (\<lambda>m. take (length b) (drop (m * length b) (concat (replicate M b)))) [0..<M]
        = map (\<lambda>m. b) [0..<M]"
    by (rule map_cong) (simp_all add: take_drop_concat_replicate)
  also have "\<dots> = replicate M b" by (simp add: map_replicate_const)
  finally show ?thesis
    using assms by (simp add: np_split_def Let_def d length_concat_replicate)
qed

lemma retained_replicate:
  assumes "rows d = concat (replicate M blk)"
  shows "retained d 0 = concat (replicate M (map (take (ncols d - 2)) blk))"
  by (simp add: retained_def assms map_concat)

lemma grubin_split_replicate:
  assumes "0 < M" and "rows d = concat (replicate M blk)"
  shows "grubin_split d M = Inr (0, replicate M (map (take (ncols d - 2)) blk))"
  by (simp add: grubin_split_def retained_replicate [OF assms(2)] np_split_replicate [OF assms(1)])

lemma sum_list_replicate_const: "sum_list (replicate M x) = real M * (x :: real)"
  by (induction M) (simp_all add: algebra_simps)

lemma theta_bar_dotm_replicate:
  "theta_bar_dotm (replicate M b) P = replicate M (hd (theta_bar_dotm [b] P))"
  by (simp add: theta_bar_dotm_def)

lemma theta_bar_dotdot_replicate:
  assumes "0 < M" and "length mu = P"
  shows "theta_bar_dotdot (replicate M mu) P = mu"
proof -
  have "map (\<lambda>p. sum_list (map (\<lambda>m. m ! p) (replicate M mu)) / real (length (replicate M mu))) [0..<P]
        = map (\<lambda>p. mu ! p) [0..<P]"
    using assms(1) by (simp add: sum_list_replicate_const)
  also have "\<dots> = mu" unfolding assms(2) [symmetric] by (rule map_nth)
  finally show ?thesis by (simp add: theta_bar_dotdot_def)
qed

lemma between_B_replicate:
  "between_B N M (replicate K mu) mu P = replicate P 0"
  by (simp add: between_B_def sum_list_replicate_const map_replicate_const)

lemma sm_sq_replicate:
  "sm_sq N (replicate M b) (replicate M mu) P = replicate M (hd (sm_sq N [b] [mu] P))"
  by (simp add: sm_sq_def zip_replicate)

lemma within_W_replicate:
  assumes "0 < M" and "length s = P"
  shows "within_W M (replicate M s) P = s"
proof -
  have "map (\<lambda>p. 1 / real M * sum_list (map (\<lambda>s. s ! p) (replicate M s))) [0..<P]
        = map (\<lambda>p. s ! p) [0..<P]"
    using assms(1) by (simp add: sum_list_replicate_const)
  also have "\<dots> = s" unfolding assms(2) [symmetric] by (rule map_nth)
  finally show ?thesis by (simp add: within_W_def)
qed

lemma sum_list_pos_member:
  assumes "\<And>x. x \<in> set xs \<Longrightarrow> 0 \<le> (f x :: real)" and "y \<in> set xs" and "0 < f y"
  shows "0 < sum_list (map f xs)"
  using assms
proof (induction xs)
  case Nil
  then show ?case by simp
next
  case (Cons a xs)
  have nn: "0 \<le> sum_list (map f xs)"
    by (rule sum_list_nonneg) (use Cons.prems(1) in auto)
  show ?case
  proof (cases "y = a")
    case True
    with nn Cons.prems(3) show ?thesis by simp
  next
    case False
    with Cons.prems have "y \<in> set xs" by simp
    then have "0 < sum_list (map f xs)"
      using Cons.IH Cons.prems by simp
    moreover have "0 \<le> f a" using Cons.prems(1) by simp
    ultimately show ?thesis by simp
  qed
qed

section \<open>Divisors of grubin\<close>

lemma retained_len_ge:
  assumes "0 < M" and "M \<le> R"
  shows "M \<le> R - R mod (M::nat)"
proof -
  have "M div M \<le> R div M" using assms(2) by (rule div_le_mono)
  then have "1 \<le> R div M" using assms(1) by simp
  then have "M * 1 \<le> M * (R div M)" by (rule mult_le_mono2)
  then show ?thesis by (simp add: minus_mod_eq_mult_div)
qed

lemma grubin_body_returns:
  assumes "2 \<le> M" and "M \<le> length (rows d)" and "0 < ncols d"
  shows "\<exists>l. grubin_body d M threshold = Inr l \<and> M \<le> gr_N l \<and>
             gr_N l = length (rows d) - grubin_burn (length (rows d)) M"
proof -
  from assms obtain data_split
    where s: "grubin_split d M = Inr (grubin_burn (length (rows d)) M, data_split)"
    using grubin_split_total [of M d] by auto
  have N: "M \<le> length (rows d) - length (rows d) mod M"
    using assms by (intro retained_len_ge) simp_all
  with assms show ?thesis
    by (simp add: grubin_body_def s grubin_burn_mod Let_def)
qed

text \<open>
  Claim C10. For every input with \<open>M \<ge> 2\<close>, at least \<open>M\<close> rows and more than two
  columns, \<open>grubin\<close> returns, and every scalar divisor of the computation other than
  \<open>W\<close>, namely \<open>M - 1\<close>, \<open>M\<close>, \<open>N\<close> and \<open>N - 1\<close>, is nonzero, so that no division
  raises ZeroDivisionError. For \<open>M = 1\<close> the guarantee does not hold: the division by
  \<open>M - 1\<close> raises ZeroDivisionError.
\<close>

theorem grubin_divisors_nonzero:
  assumes "2 \<le> M" and "M \<le> length (rows d)" and "2 < ncols d"
  shows "(\<exists>l. grubin_body d M threshold = Inr l \<and>
              grubin (Core d) (int M) threshold = Inr (gr_Rhat l, gr_idx l) \<and>
              real M - 1 \<noteq> 0 \<and> real M \<noteq> 0 \<and> real (gr_N l) \<noteq> 0 \<and> real (gr_N l) - 1 \<noteq> 0) \<and>
         grubin (Core d) 1 threshold = Inl ZeroDivisionError"
proof -
  from assms obtain l where l: "grubin_body d M threshold = Inr l" "M \<le> gr_N l"
    using grubin_body_returns [of M d threshold] by auto
  have g: "grubin (Core d) (int M) threshold = Inr (gr_Rhat l, gr_idx l)"
    by (simp add: grubin_def l)
  have one: "grubin (Core d) 1 threshold = Inl ZeroDivisionError"
    using assms(3) by (simp add: grubin_def grubin_body_def grubin_split_def np_split_def Let_def)
  from l g one assms(1) show ?thesis by auto
qed

theorem grubin_divisors_nonzero_witness:
  "(2::nat) \<le> 2 \<and>
   2 \<le> length (rows \<lparr>ncols = 3, rows = [[0, 7, 7], [1, 7, 7], [2, 7, 7], [4, 7, 7]]\<rparr>) \<and>
   2 < ncols \<lparr>ncols = 3, rows = [[0, 7, 7], [1, 7, 7], [2, 7, 7], [4, 7, 7]]\<rparr> \<and>
   (\<exists>l. grubin_body \<lparr>ncols = 3, rows = [[0, 7, 7], [1, 7, 7], [2, 7, 7], [4, 7, 7]]\<rparr> 2 (101 / 100)
          = Inr l \<and>
        grubin (Core \<lparr>ncols = 3, rows = [[0, 7, 7], [1, 7, 7], [2, 7, 7], [4, 7, 7]]\<rparr>) (int 2) (101 / 100)
          = Inr (gr_Rhat l, gr_idx l) \<and>
        real (gr_N l) \<noteq> 0 \<and> real (gr_N l) - 1 \<noteq> 0) \<and>
   grubin (Core \<lparr>ncols = 3, rows = [[0, 7, 7], [1, 7, 7], [2, 7, 7], [4, 7, 7]]\<rparr>) 1 (101 / 100)
     = Inl ZeroDivisionError"
proof -
  let ?d = "\<lparr>ncols = 3, rows = [[0, 7, 7], [1, 7, 7], [2, 7, 7], [4, 7, 7::real]]\<rparr>"
  have a: "(2::nat) \<le> 2" by simp
  have b: "2 \<le> length (rows ?d)" by simp
  have c: "2 < ncols ?d" by simp
  have "(\<exists>l. grubin_body ?d 2 (101 / 100) = Inr l \<and>
              grubin (Core ?d) (int 2) (101 / 100) = Inr (gr_Rhat l, gr_idx l) \<and>
              real (gr_N l) \<noteq> 0 \<and> real (gr_N l) - 1 \<noteq> 0) \<and>
        grubin (Core ?d) 1 (101 / 100) = Inl ZeroDivisionError"
    using grubin_divisors_nonzero [OF a b c, of "101 / 100"]
    apply (elim exE conjE)
    apply (intro exI conjI)
        apply assumption+
    done
  then have "\<exists>l. grubin_body ?d 2 (101 / 100) = Inr l \<and>
              grubin (Core ?d) (int 2) (101 / 100) = Inr (gr_Rhat l, gr_idx l) \<and>
              real (gr_N l) \<noteq> 0 \<and> real (gr_N l) - 1 \<noteq> 0"
    and "grubin (Core ?d) 1 (101 / 100) = Inl ZeroDivisionError"
    by (rule conjunct1, rule conjunct2)
  with a b c show ?thesis by (intro conjI)
qed

section \<open>grubin on concrete chains\<close>

lemma split_ex1:
  "grubin_split \<lparr>ncols = 3, rows = [[0, 7, 7], [1, 7, 7], [2, 7, 7], [4, 7, 7]]\<rparr> 2
     = Inr (0, [[[0], [1]], [[2], [4]]])"
  by (simp add: grubin_split_def np_split_def retained_def Let_def upt_conv_Cons)

lemma sqrt_ex1: "101 < sqrt (33 / 4) * 100"
proof -
  have "101 / 100 < sqrt (33 / 4)"
    by (rule real_less_rsqrt) (simp add: power2_eq_square)
  then show ?thesis by simp
qed

lemma body_ex1:
  "grubin_body \<lparr>ncols = 3, rows = [[0, 7, 7], [1, 7, 7], [2, 7, 7], [4, 7, 7]]\<rparr> 2 (101 / 100)
     = Inr \<lparr>gr_burn = 0, gr_N = 4, gr_B = [25 / 2], gr_W = [5 / 12], gr_var_post = [55 / 16],
            gr_Rhat = [Finite (sqrt (33 / 4))], gr_idx = [0]\<rparr>"
  apply (simp add: grubin_body_def split_ex1 Let_def theta_bar_dotm_def theta_bar_dotdot_def
      between_B_def sm_sq_def within_W_def var_post_def Rhat_of_def exceeding_def
      np_true_divide_def power2_eq_square sqrt_ex1)
  done


lemma spec_ex1: "spec_Rhat [[[0], [1]], [[2], [4]]] 2 1 = [Finite (sqrt 3)]"
  by (simp add: spec_Rhat_def Let_def theta_bar_dotm_def theta_bar_dotdot_def
      between_B_def sm_sq_def within_W_def var_post_def Rhat_of_def
      np_true_divide_def power2_eq_square)

lemma sqrt_ex3: "\<not> 101 < sqrt (3 / 4) * 100"
proof -
  have "sqrt (3 / 4) \<le> 1" by simp
  then show ?thesis by linarith
qed

lemma body_ex3:
  "grubin_body \<lparr>ncols = 3, rows = [[0, 7, 7], [1, 7, 7], [0, 7, 7], [1, 7, 7]]\<rparr> 2 (101 / 100)
     = Inr \<lparr>gr_burn = 0, gr_N = 4, gr_B = [0], gr_W = [1 / 6], gr_var_post = [1 / 8],
            gr_Rhat = [Finite (sqrt (3 / 4))], gr_idx = []\<rparr>"
  apply (simp add: grubin_body_def grubin_split_def np_split_def retained_def upt_conv_Cons
      Let_def theta_bar_dotm_def theta_bar_dotdot_def
      between_B_def sm_sq_def within_W_def var_post_def Rhat_of_def exceeding_def
      np_true_divide_def power2_eq_square sqrt_ex3)
  done

text \<open>
  Claim C1. \<open>grubin\<close> computes \<open>B = (N / (M - 1)) * sum\<close>,
  \<open>var_post = ((N - 1) / N) * W + (1 / N) * B\<close> and \<open>Rhat = sqrt (var_post / W)\<close>
  with \<open>N\<close> the number of rows per block and \<open>W\<close> the mean of the per-block sample
  variances. On the chain with the four rows \<open>0, 1, 2, 4\<close> in its one retained column
  and \<open>M = 2\<close> the blocks have two rows each, but the source reads
  \<open>N = len(data[burn:, 0]) = 4\<close> before it rebinds \<open>data\<close> to the blocks; it returns
  \<open>sqrt (33 / 4)\<close> where the formulas with \<open>N = 2\<close> give \<open>sqrt 3\<close>.
\<close>

theorem grubin_N_is_all_retained_rows:
  "grubin_split \<lparr>ncols = 3, rows = [[0, 7, 7], [1, 7, 7], [2, 7, 7], [4, 7, 7]]\<rparr> 2
     = Inr (0, [[[0], [1]], [[2], [4]]]) \<and>
   grubin_body \<lparr>ncols = 3, rows = [[0, 7, 7], [1, 7, 7], [2, 7, 7], [4, 7, 7]]\<rparr> 2 (101 / 100)
     = Inr \<lparr>gr_burn = 0, gr_N = 4, gr_B = [25 / 2], gr_W = [5 / 12], gr_var_post = [55 / 16],
            gr_Rhat = [Finite (sqrt (33 / 4))], gr_idx = [0]\<rparr> \<and>
   grubin (Core \<lparr>ncols = 3, rows = [[0, 7, 7], [1, 7, 7], [2, 7, 7], [4, 7, 7]]\<rparr>) 2 (101 / 100)
     = Inr ([Finite (sqrt (33 / 4))], [0]) \<and>
   spec_Rhat [[[0], [1]], [[2], [4]]] 2 1 = [Finite (sqrt 3)] \<and>
   sqrt (33 / 4) \<noteq> sqrt 3"
  using spec_ex1 by (simp add: split_ex1 body_ex1 grubin_def)

text \<open>
  Claim C3, as stated, fails: on two identical blocks with rows \<open>0, 1\<close> in the one
  retained column \<open>grubin\<close> returns \<open>sqrt (3 / 4)\<close>, not \<open>1\<close>.
\<close>

theorem grubin_identical_blocks_not_one:
  "grubin (Core \<lparr>ncols = 3, rows = [[0, 7, 7], [1, 7, 7], [0, 7, 7], [1, 7, 7]]\<rparr>) 2 (101 / 100)
     = Inr ([Finite (sqrt (3 / 4))], []) \<and>
   sqrt (3 / 4) \<noteq> 1"
  by (simp add: body_ex3 grubin_def)

section \<open>grubin on identical blocks\<close>

lemma sq_dev_pos:
  assumes "r1 \<in> set b" and "r2 \<in> set b" and "r1 ! p \<noteq> (r2 ! p :: real)"
  shows "0 < sum_list (map (\<lambda>row. (row ! p - c)\<^sup>2) b)"
proof -
  have "r1 ! p \<noteq> c \<or> r2 ! p \<noteq> c" using assms(3) by auto
  then obtain y where y: "y \<in> set b" "y ! p \<noteq> c" using assms(1,2) by auto
  show ?thesis
  proof (rule sum_list_pos_member [where y = y])
    show "0 \<le> (x ! p - c)\<^sup>2" for x by simp
    show "y \<in> set b" by (rule y(1))
    show "0 < (y ! p - c)\<^sup>2" using y(2) by simp
  qed
qed

lemma Rhat_entry:
  assumes "0 < w" and "2 \<le> N"
  shows "np_sqrt (np_true_divide ((real N - 1) / real N * w + 1 / real N * 0) w)
         = Finite (sqrt ((real N - 1) / real N))"
proof -
  have "((real N - 1) / real N * w + 1 / real N * 0) / w = (real N - 1) / real N"
    using assms(1) by simp
  moreover have "0 \<le> (real N - 1) / real N" using assms(2) by simp
  ultimately show ?thesis using assms(1) by (simp add: np_true_divide_def)
qed

lemma grubin_body_replicate:
  assumes M: "2 \<le> M" and c: "2 < ncols d" and r: "rows d = concat (replicate M blk)"
    and ne: "blk \<noteq> []"
  defines "P \<equiv> ncols d - 2"
  defines "b \<equiv> map (take (ncols d - 2)) blk"
  defines "N \<equiv> M * length blk"
  defines "mu \<equiv> map (\<lambda>p. sum_list (map (\<lambda>row. row ! p) b) / real (length b)) [0..<P]"
  defines "s \<equiv> map (\<lambda>p. 1 / (real N - 1) * sum_list (map (\<lambda>row. (row ! p - mu ! p)\<^sup>2) b)) [0..<P]"
  shows "grubin_body d M threshold =
           Inr \<lparr>gr_burn = 0, gr_N = N, gr_B = replicate P 0, gr_W = s,
                gr_var_post = var_post N s (replicate P 0) P,
                gr_Rhat = Rhat_of (var_post N s (replicate P 0) P) s P,
                gr_idx = exceeding (Rhat_of (var_post N s (replicate P 0) P) s P) threshold\<rparr>"
proof -
  have M0: "0 < M" using M by simp
  have split: "grubin_split d M = Inr (0, replicate M b)"
    unfolding b_def using M0 r by (rule grubin_split_replicate)
  have len: "length (rows d) = N" by (simp add: r N_def length_concat_replicate)
  have "1 \<le> length blk" using ne by (cases blk) simp_all
  then have "2 * 1 \<le> M * length blk" using M by (intro mult_le_mono) simp_all
  then have N2: "2 \<le> N" by (simp add: N_def)
  have tbm: "theta_bar_dotm (replicate M b) P = replicate M mu"
    by (simp add: theta_bar_dotm_def mu_def)
  have lmu: "length mu = P" by (simp add: mu_def)
  have tbdd: "theta_bar_dotdot (replicate M mu) P = mu"
    using M0 lmu by (rule theta_bar_dotdot_replicate)
  have B: "between_B N M (replicate M mu) mu P = replicate P 0"
    by (rule between_B_replicate)
  have sm: "sm_sq N (replicate M b) (replicate M mu) P = replicate M s"
    by (simp add: sm_sq_def s_def)
  have ls: "length s = P" by (simp add: s_def)
  have W: "within_W M (replicate M s) P = s"
    using M0 ls by (rule within_W_replicate)
  show ?thesis
    using M c N2
    by (simp add: grubin_body_def split len tbm tbdd B sm W Let_def P_def [symmetric])
qed

text \<open>
  Claim C3, amended. For every chain whose rows are \<open>M \<ge> 2\<close> identical contiguous
  blocks, with more than two columns and every retained column non-constant within a
  block, \<open>grubin\<close> returns, and for every retained parameter the between-chain variance
  \<open>B\<close> is \<open>0\<close>, \<open>W\<close> is positive, \<open>var_post = ((N - 1) / N) * W\<close> and
  \<open>Rhat = sqrt ((N - 1) / N)\<close>, which is below \<open>1\<close> and never equal to it; \<open>N \<ge> 2\<close> is
  the value of the local variable \<open>N\<close> of \<open>grubin\<close>.
\<close>

theorem grubin_identical_blocks:
  assumes M: "2 \<le> M" and c: "2 < ncols d" and r: "rows d = concat (replicate M blk)"
    and nc: "\<forall>p < ncols d - 2. \<exists>r1 \<in> set blk. \<exists>r2 \<in> set blk. r1 ! p \<noteq> r2 ! p"
  shows "\<exists>l. grubin_body d M threshold = Inr l \<and>
             grubin (Core d) (int M) threshold = Inr (gr_Rhat l, gr_idx l) \<and>
             length (gr_Rhat l) = ncols d - 2 \<and> 2 \<le> gr_N l \<and>
             (\<forall>p < ncols d - 2.
                gr_B l ! p = 0 \<and> 0 < gr_W l ! p \<and>
                gr_var_post l ! p = (real (gr_N l) - 1) / real (gr_N l) * gr_W l ! p \<and>
                gr_Rhat l ! p = Finite (sqrt ((real (gr_N l) - 1) / real (gr_N l))) \<and>
                gr_Rhat l ! p \<noteq> Finite 1)"
proof -
  define P where "P = ncols d - 2"
  define b where "b = map (take (ncols d - 2)) blk"
  define N where "N = M * length blk"
  define mu where "mu = map (\<lambda>p. sum_list (map (\<lambda>row. row ! p) b) / real (length b)) [0..<P]"
  define s where
    "s = map (\<lambda>p. 1 / (real N - 1) * sum_list (map (\<lambda>row. (row ! p - mu ! p)\<^sup>2) b)) [0..<P]"
  define l where
    "l = \<lparr>gr_burn = 0, gr_N = N, gr_B = replicate P 0, gr_W = s,
           gr_var_post = var_post N s (replicate P 0) P,
           gr_Rhat = Rhat_of (var_post N s (replicate P 0) P) s P,
           gr_idx = exceeding (Rhat_of (var_post N s (replicate P 0) P) s P) threshold\<rparr>"
  have P0: "0 < P" using c by (simp add: P_def)
  with nc have "\<exists>r1 \<in> set blk. \<exists>r2 \<in> set blk. r1 ! 0 \<noteq> r2 ! 0" by (simp add: P_def)
  then have ne: "blk \<noteq> []" by auto
  have body: "grubin_body d M threshold = Inr l"
    unfolding l_def s_def mu_def b_def N_def P_def
    using M c r ne by (rule grubin_body_replicate)
  have g: "grubin (Core d) (int M) threshold = Inr (gr_Rhat l, gr_idx l)"
    by (simp add: grubin_def body)
  have "1 \<le> length blk" using ne by (cases blk) simp_all
  then have "2 * 1 \<le> M * length blk" using M by (intro mult_le_mono) simp_all
  then have N2: "2 \<le> N" by (simp add: N_def)
  have lenR: "length (gr_Rhat l) = P" by (simp add: l_def Rhat_of_def)
  have entries: "gr_B l ! p = 0 \<and> 0 < gr_W l ! p \<and>
      gr_var_post l ! p = (real (gr_N l) - 1) / real (gr_N l) * gr_W l ! p \<and>
      gr_Rhat l ! p = Finite (sqrt ((real (gr_N l) - 1) / real (gr_N l))) \<and>
      gr_Rhat l ! p \<noteq> Finite 1" if p: "p < P" for p
  proof -
    from nc p obtain r1 r2 where rr: "r1 \<in> set blk" "r2 \<in> set blk" "r1 ! p \<noteq> r2 ! p"
      unfolding P_def by blast
    have in_b: "take P r1 \<in> set b" "take P r2 \<in> set b"
      using rr(1,2) by (simp_all add: b_def P_def)
    have "take P r1 ! p \<noteq> take P r2 ! p" using rr(3) p by simp
    with in_b have ss: "0 < sum_list (map (\<lambda>row. (row ! p - mu ! p)\<^sup>2) b)"
      by (rule sq_dev_pos)
    have "0 < 1 / (real N - 1)" using N2 by simp
    then have "0 < 1 / (real N - 1) * sum_list (map (\<lambda>row. (row ! p - mu ! p)\<^sup>2) b)"
      using ss by (rule mult_pos_pos)
    then have w: "0 < s ! p" using p by (simp add: s_def)
    have vp: "var_post N s (replicate P 0) P ! p = (real N - 1) / real N * s ! p + 1 / real N * 0"
      using p by (simp add: var_post_def)
    have "Rhat_of (var_post N s (replicate P 0) P) s P ! p
          = np_sqrt (np_true_divide (var_post N s (replicate P 0) P ! p) (s ! p))"
      using p by (simp add: Rhat_of_def)
    also have "\<dots> = np_sqrt (np_true_divide
                  ((real N - 1) / real N * s ! p + 1 / real N * 0) (s ! p))"
      by (simp only: vp)
    also have "\<dots> = Finite (sqrt ((real N - 1) / real N))"
      using w N2 by (rule Rhat_entry)
    finally have Rh: "Rhat_of (var_post N s (replicate P 0) P) s P ! p
              = Finite (sqrt ((real N - 1) / real N))" .
    have "(real N - 1) / real N \<noteq> 1" using N2 by simp
    then have one: "sqrt ((real N - 1) / real N) \<noteq> 1" by simp
    show ?thesis using p w vp Rh one by (simp add: l_def)
  qed
  show ?thesis
    using body g lenR N2 entries
    by (intro exI [of _ l]) (simp add: P_def l_def)
qed

theorem grubin_identical_blocks_witness:
  "\<exists>l. grubin_body \<lparr>ncols = 3, rows = [[0, 7, 7], [1, 7, 7], [0, 7, 7], [1, 7, 7]]\<rparr> 2 (101 / 100)
          = Inr l \<and>
        grubin (Core \<lparr>ncols = 3, rows = [[0, 7, 7], [1, 7, 7], [0, 7, 7], [1, 7, 7]]\<rparr>) (int 2) (101 / 100)
          = Inr (gr_Rhat l, gr_idx l) \<and>
        length (gr_Rhat l) = ncols \<lparr>ncols = 3, rows = [[0, 7, 7], [1, 7, 7], [0, 7, 7], [1, 7, 7]]\<rparr> - 2 \<and>
        2 \<le> gr_N l \<and>
        (\<forall>p < ncols \<lparr>ncols = 3, rows = [[0, 7, 7], [1, 7, 7], [0, 7, 7], [1, 7, 7]]\<rparr> - 2.
           gr_B l ! p = 0 \<and> 0 < gr_W l ! p \<and>
           gr_var_post l ! p = (real (gr_N l) - 1) / real (gr_N l) * gr_W l ! p \<and>
           gr_Rhat l ! p = Finite (sqrt ((real (gr_N l) - 1) / real (gr_N l))) \<and>
           gr_Rhat l ! p \<noteq> Finite 1)"
proof -
  let ?d = "\<lparr>ncols = 3, rows = [[0, 7, 7], [1, 7, 7], [0, 7, 7], [1, 7, 7::real]]\<rparr>"
  let ?blk = "[[0, 7, 7], [1, 7, 7::real]]"
  have a: "(2::nat) \<le> 2" by simp
  have b: "2 < ncols ?d" by simp
  have r: "rows ?d = concat (replicate 2 ?blk)" by (simp add: numeral_2_eq_2)
  have nc: "\<forall>p < ncols ?d - 2. \<exists>r1 \<in> set ?blk. \<exists>r2 \<in> set ?blk. r1 ! p \<noteq> r2 ! p" by auto
  show ?thesis by (rule grubin_identical_blocks [OF a b r nc])
qed

section \<open>The keys and values of compute_neff\<close>

lemma neff_loop_lookup:
  "neff_loop tau core ps neffs p =
     (if p \<in> set ps \<and> p \<notin> set bookkeeping
      then Some (np_true_divide (real (length (samples core p))) (tau (samples core p)))
      else neffs p)"
  by (induction ps arbitrary: neffs) (auto simp: Let_def)

text \<open>
  Claim C5. For every chain, the keys of the mapping that \<open>compute_neff\<close> returns are
  exactly the chain's parameter names without the four bookkeeping parameters, the
  value of each retained parameter is the length of its sample sequence divided by its
  integrated autocorrelation time (a finite quotient whenever that time is not zero),
  and no bookkeeping parameter is among the keys.
\<close>

theorem compute_neff_keys_values:
  "dom (compute_neff tau core) = set (params core) - set bookkeeping \<and>
   (\<forall>p \<in> set (params core) - set bookkeeping.
      compute_neff tau core p
        = Some (np_true_divide (real (length (samples core p))) (tau (samples core p))) \<and>
      (tau (samples core p) \<noteq> 0 \<longrightarrow>
         compute_neff tau core p
           = Some (Finite (real (length (samples core p)) / tau (samples core p))))) \<and>
   (\<forall>p \<in> set bookkeeping. compute_neff tau core p = None)"
  by (auto simp: compute_neff_def neff_loop_lookup np_true_divide_def dom_def)

theorem compute_neff_keys_values_witness:
  "dom (compute_neff (\<lambda>c. 2) \<lparr>params = [''a'', ''lnpost'', ''lnlike''], samples = (\<lambda>p. [1, 2, 3, 4])\<rparr>)
     = {''a''} \<and>
   compute_neff (\<lambda>c. 2) \<lparr>params = [''a'', ''lnpost'', ''lnlike''], samples = (\<lambda>p. [1, 2, 3, 4])\<rparr> ''a''
     = Some (Finite 2) \<and>
   compute_neff (\<lambda>c. 2) \<lparr>params = [''a'', ''lnpost'', ''lnlike''], samples = (\<lambda>p. [1, 2, 3, 4])\<rparr> ''lnpost''
     = None"
proof -
  let ?c = "\<lparr>params = [''a'', ''lnpost'', ''lnlike''], samples = (\<lambda>p. [1, 2, 3, 4::real])\<rparr>"
  let ?t = "\<lambda>c::real list. 2::real"
  note th = compute_neff_keys_values [of ?t ?c]
  have d: "set (params ?c) - set bookkeeping = {''a''}"
    by (simp add: bookkeeping_def insert_Diff_if)
  have "dom (compute_neff ?t ?c) = set (params ?c) - set bookkeeping"
    by (rule th [THEN conjunct1])
  then have 1: "dom (compute_neff ?t ?c) = {''a''}" by (simp only: d)
  have m: "''a'' \<in> set (params ?c) - set bookkeeping" by (simp only: d) simp
  have nz: "?t (samples ?c ''a'') \<noteq> 0" by simp
  have "compute_neff ?t ?c ''a''
        = Some (Finite (real (length (samples ?c ''a'')) / ?t (samples ?c ''a'')))"
    by (rule th [THEN conjunct2, THEN conjunct1, THEN bspec, OF m, THEN conjunct2, THEN mp, OF nz])
  then have 2: "compute_neff ?t ?c ''a'' = Some (Finite 2)" by simp
  have b: "''lnpost'' \<in> set bookkeeping" by (simp add: bookkeeping_def)
  have 3: "compute_neff ?t ?c ''lnpost'' = None"
    by (rule th [THEN conjunct2, THEN conjunct2, THEN bspec, OF b])
  from 1 2 3 show ?thesis by (intro conjI)
qed

section \<open>plot_chains with both pars and exclude\<close>

text \<open>
  Claim C8. A call of \<open>plot_chains\<close> with both \<open>pars\<close> and \<open>exclude\<close> given aborts
  with a configuration error. The source tests \<open>pars is not None\<close> first, so the
  branch that raises ValueError is never reached: the call goes on with
  \<open>params = pars\<close>.
\<close>

theorem plot_chains_pars_and_exclude_no_error:
  "plot_chains_params core (Some pars) (Some exclude) = Inr pars \<and>
   plot_chains_params (OneCore \<lparr>params = [''a'', ''b''], samples = (\<lambda>p. [])\<rparr>) (Some [''a'']) (Some [''b''])
     = Inr [''a'']"
  by (simp add: plot_chains_params_def)

section \<open>The statistics of pp_plot\<close>

lemma pp_burn_div: "pp_burn L = L div 4"
proof -
  have "\<lfloor>real L / real 4\<rfloor> = int (L div 4)" by (rule floor_divide_of_nat_eq)
  then show ?thesis by (simp add: pp_burn_def)
qed

lemma pp_burn_bounds: "4 * pp_burn L \<le> L \<and> L < 4 * pp_burn L + 4"
  unfolding pp_burn_div by presburger

lemma pvalues_loop_length:
  "pvalues_loop xs burn = Inr vs \<Longrightarrow> length vs = length xs"
  by (induction xs burn arbitrary: vs rule: pvalues_loop.induct)
    (auto split: sum.splits)

lemma pvalues_loop_returns:
  assumes "\<forall>(col, t) \<in> set xs. burn < length col"
  shows "pvalues_loop xs burn =
         Inr (map (\<lambda>(col, t). real (length (filter (\<lambda>x. x < t) (drop burn col)))
                               / real (length col - burn)) xs)"
  using assms
  by (induction xs burn rule: pvalues_loop.induct) (auto simp: pvalue_def)

lemma np_linspace01_length: "length (np_linspace01 n) = n"
  by (simp add: np_linspace01_def)

lemma np_linspace01_nth:
  "i < n \<Longrightarrow> np_linspace01 n ! i = (if n = 1 then 0 else real i / (real n - 1))"
  by (auto simp: np_linspace01_def)

lemma np_linspace01_range:
  assumes "i < n"
  shows "0 \<le> np_linspace01 n ! i \<and> np_linspace01 n ! i \<le> 1"
proof (cases "n = 1")
  case True
  with assms show ?thesis by (simp add: np_linspace01_def)
next
  case False
  with assms have "real i \<le> real n - 1" "0 < real n - 1" by auto
  then show ?thesis using assms False by (simp add: np_linspace01_nth)
qed

lemma np_linspace01_ends:
  assumes "2 \<le> n"
  shows "np_linspace01 n ! 0 = 0 \<and> np_linspace01 n ! (n - 1) = 1"
proof -
  have "real (n - 1) = real n - 1" using assms by (simp add: of_nat_diff)
  with assms show ?thesis by (simp add: np_linspace01_nth)
qed

lemma pp_stats_Inr:
  assumes "pp_stats chain truths = Inr res"
  obtains pvalues where
    "chain \<noteq> []"
    "pvalues_loop (zip chain truths) (pp_burn (length (hd chain))) = Inr pvalues"
    "res = \<lparr>res_q = np_linspace01 (length pvalues), res_pvalues = pvalues,
            res_cdf = map (\<lambda>qi. real (length (filter (\<lambda>pv. pv < qi) pvalues)) / real (length pvalues))
                        (np_linspace01 (length pvalues)),
            res_sigma = map (\<lambda>pj. sqrt (pj * (1 - pj) / real (length pvalues))) (np_linspace01 1000)\<rparr>"
  using assms
  by (auto simp: pp_stats_def Let_def np_linspace01_length split: list.splits sum.splits)

lemma pp_stats_pvalues:
  assumes ne: "chain \<noteq> []" and len: "\<forall>col \<in> set chain. length col = L" and L: "0 < L"
    and tr: "length truths = length chain"
  shows "\<exists>res. pp_stats chain truths = Inr res \<and>
           length (res_pvalues res) = length chain \<and>
           pp_burn L = L div 4 \<and> 4 * pp_burn L \<le> L \<and> L < 4 * pp_burn L + 4 \<and>
           (\<forall>i < length chain.
              length (drop (pp_burn L) (chain ! i)) = L - pp_burn L \<and>
              res_pvalues res ! i
                = real (length (filter (\<lambda>x. x < truths ! i) (drop (pp_burn L) (chain ! i))))
                  / real (length (drop (pp_burn L) (chain ! i))))"
proof -
  define f :: "real list \<times> real \<Rightarrow> real" where "f = (\<lambda>(col, t). real (length (filter (\<lambda>x. x < t) (drop (pp_burn L) col)))
                               / real (length col - pp_burn L))"
  from ne obtain col0 cols where ch: "chain = col0 # cols" by (cases chain) auto
  with len have l0: "length col0 = L" by simp
  have bl: "pp_burn L < L" using L unfolding pp_burn_div by simp
  have "\<forall>(col, t) \<in> set (zip chain truths). pp_burn L < length col"
    using len bl by (auto dest: set_zip_leftD)
  then have pv: "pvalues_loop (zip chain truths) (pp_burn L) = Inr (map f (zip chain truths))"
    unfolding f_def by (rule pvalues_loop_returns)
  define res where
    "res = \<lparr>res_q = np_linspace01 (length (map f (zip chain truths))),
            res_pvalues = map f (zip chain truths),
            res_cdf = map (\<lambda>qi. real (length (filter (\<lambda>pv. pv < qi) (map f (zip chain truths))))
                                / real (length (map f (zip chain truths))))
                        (np_linspace01 (length (map f (zip chain truths)))),
            res_sigma = map (\<lambda>pj. sqrt (pj * (1 - pj)
                                / real (length (np_linspace01 (length (map f (zip chain truths)))))))
                          (np_linspace01 1000)\<rparr>"
  have st: "pp_stats chain truths = Inr res"
    using pv by (simp add: pp_stats_def ch l0 Let_def res_def np_linspace01_length)
  have lp: "length (res_pvalues res) = length chain" using tr by (simp add: res_def)
  have ent: "length (drop (pp_burn L) (chain ! i)) = L - pp_burn L \<and>
             res_pvalues res ! i
              = real (length (filter (\<lambda>x. x < truths ! i) (drop (pp_burn L) (chain ! i))))
                / real (length (drop (pp_burn L) (chain ! i)))" if i: "i < length chain" for i
  proof -
    have "chain ! i \<in> set chain" using i by simp
    with len have li: "length (chain ! i) = L" by simp
    show ?thesis using i tr li by (simp add: res_def f_def)
  qed
  show ?thesis
    using st lp ent pp_burn_div [of L] pp_burn_bounds [of L] by blast
qed

lemma pp_stats_cdf_sigma:
  assumes st: "pp_stats chain truths = Inr res" and tr: "length truths = length chain"
  shows "res_q res = np_linspace01 (length chain) \<and>
         length (res_q res) = length chain \<and>
         length (res_pvalues res) = length chain \<and>
         (\<forall>i < length chain. 0 \<le> res_q res ! i \<and> res_q res ! i \<le> 1) \<and>
         (2 \<le> length chain \<longrightarrow> res_q res ! 0 = 0 \<and> res_q res ! (length chain - 1) = 1) \<and>
         length (res_cdf res) = length chain \<and>
         (\<forall>i < length chain.
            res_cdf res ! i
              = real (length (filter (\<lambda>pv. pv < res_q res ! i) (res_pvalues res)))
                / real (length chain)) \<and>
         length (res_sigma res) = 1000 \<and>
         (\<forall>j < 1000.
            np_linspace01 1000 ! j = real j / 999 \<and>
            res_sigma res ! j
              = sqrt (np_linspace01 1000 ! j * (1 - np_linspace01 1000 ! j) / real (length chain)))"
proof -
  from st obtain pvalues where
    pv: "pvalues_loop (zip chain truths) (pp_burn (length (hd chain))) = Inr pvalues" and
    res: "res = \<lparr>res_q = np_linspace01 (length pvalues), res_pvalues = pvalues,
            res_cdf = map (\<lambda>qi. real (length (filter (\<lambda>pv. pv < qi) pvalues)) / real (length pvalues))
                        (np_linspace01 (length pvalues)),
            res_sigma = map (\<lambda>pj. sqrt (pj * (1 - pj) / real (length pvalues))) (np_linspace01 1000)\<rparr>"
    by (rule pp_stats_Inr)
  have n: "length pvalues = length chain"
    using pvalues_loop_length [OF pv] tr by simp
  have grid: "np_linspace01 1000 ! j = real j / 999" if "j < 1000" for j
    using that by (simp add: np_linspace01_nth)
  show ?thesis
    using np_linspace01_range [of _ "length chain"] np_linspace01_ends [of "length chain"] grid
    by (simp add: res n np_linspace01_length)
qed

section \<open>The result of pp_plot\<close>

lemma pp_plot_Some:
  assumes "pp_plot env param = (msgs, Inr (Some res))"
  shows "pp_stats (pp_chain env param) (pp_truths env param) = Inr res \<and>
         length (pp_truths env param) = length (pp_chain env param) \<and>
         msgs = printed (pp_loaded env param) \<and>
         raised (pp_loaded env param) = None \<and>
         length (num_list (pp_loaded env param)) = length (answer_list (pp_loaded env param))"
  using assms
  unfolding pp_plot_def pp_chain_def pp_truths_def pp_loaded_def Let_def
  by (auto split: if_splits option.splits list.splits sum.splits)

lemma pp_stats_rows_pos:
  assumes st: "pp_stats chain truths = Inr res" and tr: "length truths = length chain"
    and len: "\<forall>col \<in> set chain. length col = L"
  shows "0 < L"
proof (rule ccontr)
  assume "\<not> 0 < L"
  then have L: "L = 0" by simp
  from st obtain pvalues where ne: "chain \<noteq> []"
    and pv: "pvalues_loop (zip chain truths) (pp_burn (length (hd chain))) = Inr pvalues"
    by (rule pp_stats_Inr)
  from ne obtain col0 cols where ch: "chain = col0 # cols" by (cases chain) auto
  with tr obtain t ts where ts: "truths = t # ts" by (cases truths) auto
  from len ch L have "col0 = []" by simp
  with pv ch ts show False by (simp add: pvalue_def)
qed

text \<open>
  Claim C4. Whenever \<open>pp_plot\<close> returns its result for an ensemble whose chains have
  \<open>L\<close> samples each, then for every realization \<open>i\<close> it has discarded the first 25
  percent of the samples, that is the first \<open>int(0.25 * L) = L div 4\<close> of them, and
  \<open>pvalues[i]\<close> is the number of remaining samples of column \<open>i\<close> of \<open>slices.chain\<close>
  strictly below the injected value \<open>a[i, 1]\<close>, divided by the number of all remaining
  samples: none is thinned out.
\<close>

theorem pp_plot_pvalues:
  assumes pl: "pp_plot env param = (msgs, Inr (Some res))"
    and len: "\<forall>col \<in> set (pp_chain env param). length col = L"
  shows "0 < L \<and>
         length (res_pvalues res) = length (pp_chain env param) \<and>
         pp_burn L = L div 4 \<and> 4 * pp_burn L \<le> L \<and> L < 4 * pp_burn L + 4 \<and>
         (\<forall>i < length (pp_chain env param).
            length (drop (pp_burn L) (pp_chain env param ! i)) = L - pp_burn L \<and>
            res_pvalues res ! i
              = real (length (filter (\<lambda>x. x < pp_truths env param ! i)
                               (drop (pp_burn L) (pp_chain env param ! i))))
                / real (length (drop (pp_burn L) (pp_chain env param ! i))))"
proof -
  from pl have st: "pp_stats (pp_chain env param) (pp_truths env param) = Inr res"
    and tr: "length (pp_truths env param) = length (pp_chain env param)"
    by (simp_all add: pp_plot_Some)
  from st have ne: "pp_chain env param \<noteq> []" by (rule pp_stats_Inr)
  from st tr len have L: "0 < L" by (rule pp_stats_rows_pos)
  from pp_stats_pvalues [OF ne len L tr] st L show ?thesis by auto
qed

text \<open>
  Claim C9. Whenever \<open>pp_plot\<close> returns its result, the grid \<open>q\<close> it returns has as
  many points as the ensemble has realizations, all in \<open>[0, 1]\<close>, from \<open>0\<close> to \<open>1\<close>;
  \<open>cdf\<close> at a grid point is the fraction of the p-values strictly below it; \<open>sigma\<close>
  is computed on the separate grid \<open>p\<close> of 1000 points \<open>j / 999\<close> as
  \<open>sqrt (p * (1 - p) / NUM_REALS)\<close>, with \<open>NUM_REALS\<close> the ensemble size.
\<close>

theorem pp_plot_cdf_sigma:
  assumes pl: "pp_plot env param = (msgs, Inr (Some res))"
  shows "res_q res = np_linspace01 (length (pp_chain env param)) \<and>
         length (res_q res) = length (pp_chain env param) \<and>
         length (res_pvalues res) = length (pp_chain env param) \<and>
         (\<forall>i < length (pp_chain env param). 0 \<le> res_q res ! i \<and> res_q res ! i \<le> 1) \<and>
         (2 \<le> length (pp_chain env param) \<longrightarrow>
            res_q res ! 0 = 0 \<and> res_q res ! (length (pp_chain env param) - 1) = 1) \<and>
         length (res_cdf res) = length (pp_chain env param) \<and>
         (\<forall>i < length (pp_chain env param).
            res_cdf res ! i
              = real (length (filter (\<lambda>pv. pv < res_q res ! i) (res_pvalues res)))
                / real (length (pp_chain env param))) \<and>
         length (res_sigma res) = 1000 \<and>
         (\<forall>j < 1000.
            np_linspace01 1000 ! j = real j / 999 \<and>
            res_sigma res ! j
              = sqrt (np_linspace01 1000 ! j * (1 - np_linspace01 1000 ! j)
                      / real (length (pp_chain env param))))"
proof -
  from pl have st: "pp_stats (pp_chain env param) (pp_truths env param) = Inr res"
    and tr: "length (pp_truths env param) = length (pp_chain env param)"
    by (simp_all add: pp_plot_Some)
  show ?thesis by (rule pp_stats_cdf_sigma [OF st tr])
qed

lemma loaded_complete:
  "pp_loaded ensemble_complete ''x''
   = \<lparr>subfolders = [''r_0'', ''r_1''], num_list = [0, 1], answer_list = [3, 8],
      printed = [], raised = None\<rparr>"
proof -
  have s: "sort_key (\<lambda>x. the (suffix_int ensemble_complete x))
             (filter (is_dir ensemble_complete) (scandir ensemble_complete))
           = [''r_0'', ''r_1'']"
    by (simp add: ensemble_complete_def)
  show ?thesis
    unfolding pp_loaded_def s by (simp add: load_loop.simps ensemble_complete_def)
qed

lemma chain_complete: "pp_chain ensemble_complete ''x'' = [[1, 2, 3, 4], [5, 6, 7, 8]]"
  by (simp add: pp_chain_def ensemble_complete_def)

lemma truths_complete: "pp_truths ensemble_complete ''x'' = [3, 8]"
  by (simp add: pp_truths_def loaded_complete)

lemma pp_plot_complete: "\<exists>res. pp_plot ensemble_complete ''x'' = ([], Inr (Some res))"
proof -
  have n: "None \<notin> set (map (suffix_int ensemble_complete)
                  (filter (is_dir ensemble_complete) (scandir ensemble_complete)))"
    by (simp add: ensemble_complete_def)
  have st: "\<exists>res. pp_stats [[1, 2, 3, 4], [5, 6, 7, 8]] [3, 8] = Inr res"
    by (simp add: pp_stats_def pvalue_def pp_burn_div Let_def)
  then obtain res where r: "pp_stats [[1, 2, 3, 4], [5, 6, 7, 8]] [3, 8] = Inr res" ..
  have c: "slices_chain ensemble_complete [''r_0'', ''r_1''] ''x'' [''x'']
           = [[1, 2, 3, 4], [5, 6, 7, 8]]"
    and p: "pars_txt ensemble_complete ''r_0'' = Some [''x'']"
    by (simp_all add: ensemble_complete_def)
  have "pp_plot ensemble_complete ''x'' = ([], Inr (Some res))"
    using n r
    by (simp add: pp_plot_def pp_loaded_def [symmetric] loaded_complete Let_def c p)
  then show ?thesis ..
qed

theorem pp_plot_pvalues_witness:
  "\<exists>res. pp_plot ensemble_complete ''x'' = ([], Inr (Some res)) \<and>
     res_pvalues res ! 0 = 1 / 3 \<and> res_pvalues res ! 1 = 2 / 3 \<and>
     (0 < (4::nat) \<and>
      length (res_pvalues res) = length (pp_chain ensemble_complete ''x'') \<and>
      pp_burn 4 = 4 div 4 \<and> 4 * pp_burn 4 \<le> 4 \<and> 4 < 4 * pp_burn 4 + 4 \<and>
      (\<forall>i < length (pp_chain ensemble_complete ''x'').
         length (drop (pp_burn 4) (pp_chain ensemble_complete ''x'' ! i)) = 4 - pp_burn 4 \<and>
         res_pvalues res ! i
           = real (length (filter (\<lambda>x. x < pp_truths ensemble_complete ''x'' ! i)
                            (drop (pp_burn 4) (pp_chain ensemble_complete ''x'' ! i))))
             / real (length (drop (pp_burn 4) (pp_chain ensemble_complete ''x'' ! i)))))"
proof -
  from pp_plot_complete obtain res
    where pl: "pp_plot ensemble_complete ''x'' = ([], Inr (Some res))" ..
  have len: "\<forall>col \<in> set (pp_chain ensemble_complete ''x''). length col = 4"
    by (simp add: chain_complete)
  note th = pp_plot_pvalues [OF pl len]
  have b: "pp_burn 4 = 1" by (simp add: pp_burn_div)
  from th have e: "\<forall>i < length (pp_chain ensemble_complete ''x'').
         res_pvalues res ! i
           = real (length (filter (\<lambda>x. x < pp_truths ensemble_complete ''x'' ! i)
                            (drop (pp_burn 4) (pp_chain ensemble_complete ''x'' ! i))))
             / real (length (drop (pp_burn 4) (pp_chain ensemble_complete ''x'' ! i)))"
    by simp
  have p0: "res_pvalues res ! 0 = 1 / 3"
    using e [rule_format, of 0] by (simp add: chain_complete truths_complete b)
  have p1: "res_pvalues res ! 1 = 2 / 3"
    using e [rule_format, of 1] by (simp add: chain_complete truths_complete b)
  show ?thesis
    apply (rule exI [of _ res])
    apply (rule conjI [OF pl])
    apply (rule conjI [OF p0])
    apply (rule conjI [OF p1])
    apply (rule th)
    done
qed

theorem pp_plot_cdf_sigma_witness:
  "\<exists>res. pp_plot ensemble_complete ''x'' = ([], Inr (Some res)) \<and>
     (res_q res = np_linspace01 (length (pp_chain ensemble_complete ''x'')) \<and>
      length (res_q res) = length (pp_chain ensemble_complete ''x'') \<and>
      length (res_pvalues res) = length (pp_chain ensemble_complete ''x'') \<and>
      (\<forall>i < length (pp_chain ensemble_complete ''x''). 0 \<le> res_q res ! i \<and> res_q res ! i \<le> 1) \<and>
      (2 \<le> length (pp_chain ensemble_complete ''x'') \<longrightarrow>
         res_q res ! 0 = 0 \<and> res_q res ! (length (pp_chain ensemble_complete ''x'') - 1) = 1) \<and>
      length (res_cdf res) = length (pp_chain ensemble_complete ''x'') \<and>
      (\<forall>i < length (pp_chain ensemble_complete ''x'').
         res_cdf res ! i
           = real (length (filter (\<lambda>pv. pv < res_q res ! i) (res_pvalues res)))
             / real (length (pp_chain ensemble_complete ''x''))) \<and>
      length (res_sigma res) = 1000 \<and>
      (\<forall>j < 1000.
         np_linspace01 1000 ! j = real j / 999 \<and>
         res_sigma res ! j
           = sqrt (np_linspace01 1000 ! j * (1 - np_linspace01 1000 ! j)
                   / real (length (pp_chain ensemble_complete ''x'')))))"
proof -
  from pp_plot_complete obtain res
    where pl: "pp_plot ensemble_complete ''x'' = ([], Inr (Some res))" ..
  show ?thesis
    apply (rule exI [of _ res])
    apply (rule conjI [OF pl])
    apply (rule pp_plot_cdf_sigma [OF pl])
    done
qed

section \<open>pp_plot on incomplete ensembles\<close>

lemma load_last_missing:
  "load_loop ensemble_last_missing ''x'' 0
     \<lparr>subfolders = [''r_0'', ''r_1'', ''r_2''], num_list = [], answer_list = [], printed = [],
      raised = None\<rparr>
   = \<lparr>subfolders = [''r_0'', ''r_1''], num_list = [0, 1, 2], answer_list = [1, 2],
      printed = [NeedsAnsJson, FolderSkipped ''r_2''], raised = None\<rparr>"
  by (simp add: load_loop.simps ensemble_last_missing_def)

lemma load_first_missing:
  "load_loop ensemble_first_missing ''x'' 0
     \<lparr>subfolders = [''r_0'', ''r_1'', ''r_2'', ''r_3'', ''r_4''], num_list = [],
      answer_list = [], printed = [], raised = None\<rparr>
   = \<lparr>subfolders = [''r_1'', ''r_2'', ''r_3'', ''r_4''], num_list = [0, 2, 3, 4],
      answer_list = [2, 3, 4], printed = [NeedsAnsJson, FolderSkipped ''r_0''], raised = None\<rparr>"
  by (simp add: load_loop.simps ensemble_first_missing_def)

lemma load_extra_chain:
  "load_loop ensemble_extra_chain ''x'' 0
     \<lparr>subfolders = [''r_0'', ''r_1'', ''r_2'', ''r_3''], num_list = [],
      answer_list = [], printed = [], raised = None\<rparr>
   = \<lparr>subfolders = [''r_0'', ''r_1'', ''r_2'', ''r_3''], num_list = [0, 1, 2, 3],
      answer_list = [0, 1, 2, 3], printed = [], raised = None\<rparr>"
  by (simp add: load_loop.simps ensemble_extra_chain_def)

lemma sorted_last_missing:
  "sort_key (\<lambda>x. the (suffix_int ensemble_last_missing x))
     (filter (is_dir ensemble_last_missing) (scandir ensemble_last_missing))
   = [''r_0'', ''r_1'', ''r_2''] \<and>
   None \<notin> set (map (suffix_int ensemble_last_missing)
                 (filter (is_dir ensemble_last_missing) (scandir ensemble_last_missing)))"
  by (simp add: ensemble_last_missing_def)

lemma sorted_first_missing:
  "sort_key (\<lambda>x. the (suffix_int ensemble_first_missing x))
     (filter (is_dir ensemble_first_missing) (scandir ensemble_first_missing))
   = [''r_0'', ''r_1'', ''r_2'', ''r_3'', ''r_4''] \<and>
   None \<notin> set (map (suffix_int ensemble_first_missing)
                 (filter (is_dir ensemble_first_missing) (scandir ensemble_first_missing)))"
  by (simp add: ensemble_first_missing_def)

lemma sorted_extra_chain:
  "sort_key (\<lambda>x. the (suffix_int ensemble_extra_chain x))
     (filter (is_dir ensemble_extra_chain) (scandir ensemble_extra_chain))
   = [''r_0'', ''r_1'', ''r_2'', ''r_3''] \<and>
   None \<notin> set (map (suffix_int ensemble_extra_chain)
                 (filter (is_dir ensemble_extra_chain) (scandir ensemble_extra_chain)))"
  by (simp add: ensemble_extra_chain_def)

text \<open>
  The test of the two counts does what it says when it is reached: four complete
  folders for which \<open>SlicesCore\<close> returns five columns.
\<close>

lemma pp_plot_extra_chain:
  "pp_plot ensemble_extra_chain ''x'' = ([CountsDiffer, Counts 5 4], Inr None)"
  using sorted_extra_chain
  by (simp add: pp_plot_def load_extra_chain Let_def) (simp add: ensemble_extra_chain_def)

text \<open>
  Claim C6. Whenever the number of ensemble chains differs from the number of
  ground-truth values, \<open>pp_plot\<close> reports the mismatch and returns \<open>None\<close> instead of
  raising an unrelated failure. With five folders of which the first has no
  \<open>ans.json\<close>, the loop leaves four folders, so four chains, and three truths, but
  \<open>num_list\<close> has four entries and \<open>answer_list\<close> three: \<open>np.column_stack\<close> raises
  ValueError before the chains are loaded and before the counts are compared.
\<close>

theorem pp_plot_mismatch_raises:
  "load_loop ensemble_first_missing ''x'' 0
     \<lparr>subfolders = [''r_0'', ''r_1'', ''r_2'', ''r_3'', ''r_4''], num_list = [],
      answer_list = [], printed = [], raised = None\<rparr>
   = \<lparr>subfolders = [''r_1'', ''r_2'', ''r_3'', ''r_4''], num_list = [0, 2, 3, 4],
      answer_list = [2, 3, 4], printed = [NeedsAnsJson, FolderSkipped ''r_0''], raised = None\<rparr> \<and>
   length (slices_chain ensemble_first_missing [''r_1'', ''r_2'', ''r_3'', ''r_4''] ''x'' [''x'']) = 4 \<and>
   pp_plot ensemble_first_missing ''x''
     = ([NeedsAnsJson, FolderSkipped ''r_0''], Inl ValueError)"
  using sorted_first_missing
  by (simp add: pp_plot_def load_first_missing Let_def) (simp add: ensemble_first_missing_def)

text \<open>
  Claim C7. When the \<open>ans.json\<close> of a realization is absent, \<open>pp_plot\<close> skips that
  realization with a message and produces its result over the remaining ones. With
  three folders of which the last has no \<open>ans.json\<close>, the message is printed and the
  folder removed, but its number was appended to \<open>num_list\<close> before: the two lists
  differ in length and \<open>np.column_stack\<close> raises ValueError; no result is produced.
\<close>

theorem pp_plot_skip_raises:
  "load_loop ensemble_last_missing ''x'' 0
     \<lparr>subfolders = [''r_0'', ''r_1'', ''r_2''], num_list = [], answer_list = [], printed = [],
      raised = None\<rparr>
   = \<lparr>subfolders = [''r_0'', ''r_1''], num_list = [0, 1, 2], answer_list = [1, 2],
      printed = [NeedsAnsJson, FolderSkipped ''r_2''], raised = None\<rparr> \<and>
   pp_plot ensemble_last_missing ''x''
     = ([NeedsAnsJson, FolderSkipped ''r_2''], Inl ValueError)"
  using sorted_last_missing
  by (simp add: pp_plot_def load_last_missing Let_def)

end
